theory Spec2Isabelle
  imports Main "HOL-Library.Sublist"
begin

unbundle bit_operations_syntax

section \<open>JavaScript strings\<close>

text \<open>
  Source strings are modelled as \<^typ>\<open>string\<close>, one \<^typ>\<open>char\<close> per code unit
  (code units below 256 only). Indices are \<^typ>\<open>int\<close>, because the source uses
  the value \<open>-1\<close> of \<open>indexOf\<close> and negative arguments of \<open>slice\<close>.
\<close>

text \<open>
  The white space of \<open>String.prototype.trim\<close> and of the pattern class \<open>\s\<close>:
  tab, line feed, vertical tab, form feed, carriage return, space and no-break space.
\<close>

definition isSpace :: "char \<Rightarrow> bool" where
  "isSpace c = (c \<in> set [CHR 0x09, CHR 0x0A, CHR 0x0B, CHR 0x0C, CHR 0x0D, CHR 0x20, CHR 0xA0])"

text \<open>The pattern class \<open>\w\<close>: ASCII letters, digits and the underscore.\<close>

definition isWord :: "char \<Rightarrow> bool" where
  "isWord c = (let n = of_char c :: nat in
     (65 \<le> n \<and> n \<le> 90) \<or> (97 \<le> n \<and> n \<le> 122) \<or> (48 \<le> n \<and> n \<le> 57) \<or> n = 95)"

definition trim :: "string \<Rightarrow> string" where
  "trim s = rev (dropWhile isSpace (rev (dropWhile isSpace s)))"

text \<open>\<open>str.startsWith(search, index)\<close> for an index inside the string.\<close>

definition startsWith :: "string \<Rightarrow> string \<Rightarrow> bool" where
  "startsWith s search = (take (length search) s = search)"

definition endsWith :: "string \<Rightarrow> string \<Rightarrow> bool" where
  "endsWith s search = (length search \<le> length s \<and> drop (length s - length search) s = search)"

text \<open>\<open>s.indexOf(search)\<close>: the first index where \<open>search\<close> starts, or \<open>-1\<close>.\<close>

fun indexOfFrom :: "string \<Rightarrow> string \<Rightarrow> int \<Rightarrow> int" where
  "indexOfFrom [] search i = (if search = [] then i else -1)"
| "indexOfFrom (c # cs) search i =
     (if startsWith (c # cs) search then i else indexOfFrom cs search (i + 1))"

definition indexOf :: "string \<Rightarrow> string \<Rightarrow> int" where
  "indexOf s search = indexOfFrom s search 0"

text \<open>\<open>s.lastIndexOf(c)\<close> for a one-character search string.\<close>

fun lastIndexOfFrom :: "string \<Rightarrow> char \<Rightarrow> int \<Rightarrow> int \<Rightarrow> int" where
  "lastIndexOfFrom [] c i found = found"
| "lastIndexOfFrom (x # xs) c i found = lastIndexOfFrom xs c (i + 1) (if x = c then i else found)"

definition lastIndexOf :: "string \<Rightarrow> char \<Rightarrow> int" where
  "lastIndexOf s c = lastIndexOfFrom s c 0 (-1)"

text \<open>
  \<open>s.slice(start, end)\<close>: a negative index counts from the end, both indices are
  clamped to the string, and the result is empty when the start is not before the end.
\<close>

definition sliceIndex :: "string \<Rightarrow> int \<Rightarrow> nat" where
  "sliceIndex s i = (if i < 0 then nat (max (int (length s) + i) 0) else min (nat i) (length s))"

definition slice :: "string \<Rightarrow> int \<Rightarrow> int \<Rightarrow> string" where
  "slice s start end = (let from = sliceIndex s start; to = sliceIndex s end
     in take (to - from) (drop from s))"

text \<open>\<open>s.substring(0, end)\<close> for \<open>end\<close> not below zero.\<close>

definition substring0 :: "string \<Rightarrow> int \<Rightarrow> string" where
  "substring0 s end = take (nat end) s"

text \<open>\<open>s[i]\<close>: \<open>undefined\<close> outside the string, here \<open>None\<close>.\<close>

definition charAt :: "string \<Rightarrow> int \<Rightarrow> char option" where
  "charAt s i = (if 0 \<le> i \<and> i < int (length s) then Some (s ! nat i) else None)"

text \<open>\<open>s.split(sep)\<close> for a one-character separator; the result is never empty.\<close>

fun split :: "char \<Rightarrow> string \<Rightarrow> string list" where
  "split sep [] = [[]]"
| "split sep (c # cs) =
     (if c = sep then [] # split sep cs
      else (case split sep cs of
              [] \<Rightarrow> [[c]]
            | part # parts \<Rightarrow> (c # part) # parts))"

text \<open>\<open>parts.join(sep)\<close>.\<close>

fun join :: "string \<Rightarrow> string list \<Rightarrow> string" where
  "join sep [] = []"
| "join sep [part] = part"
| "join sep (part # parts) = part @ sep @ join sep parts"

section \<open>Splitting on top-level commas\<close>

text \<open>
  The loop of \<open>splitByTopLevelCommas\<close> over the characters of the string, with its three
  local variables: the parts pushed so far, the current part, and the angle bracket depth
  (which may go below zero).
\<close>

fun splitLoop :: "string \<Rightarrow> string list \<Rightarrow> string \<Rightarrow> int \<Rightarrow> string list \<times> string" where
  "splitLoop [] result currentPart angleBracketDepth = (result, currentPart)"
| "splitLoop (c # cs) result currentPart angleBracketDepth =
     (if c = CHR ''<'' then splitLoop cs result (currentPart @ [c]) (angleBracketDepth + 1)
      else if c = CHR ''>'' then splitLoop cs result (currentPart @ [c]) (angleBracketDepth - 1)
      else if c = CHR '','' \<and> angleBracketDepth = 0
        then splitLoop cs (result @ [trim currentPart]) [] angleBracketDepth
      else splitLoop cs result (currentPart @ [c]) angleBracketDepth)"

definition splitByTopLevelCommas :: "string \<Rightarrow> string list" where
  "splitByTopLevelCommas str =
     (case splitLoop str [] [] 0 of
        (result, currentPart) \<Rightarrow>
          if trim currentPart \<noteq> [] then result @ [trim currentPart] else result)"

section \<open>Generic type tree parser\<close>

text \<open>
  The interface \<open>Type\<close>: the three fields of a \<open>DependencyInfo\<close> and the sub-types.
\<close>

datatype Type =
  Type (typeClassName: string) (typeNamespace: string) (typeProjectName: string)
       (subTypes: "Type list")

text \<open>
  The strings on which \<open>recursiveParseType\<close> calls itself: the top-level parts between
  the first \<open><\<close> and the last \<open>>\<close> (\<open>lastIndexOf\<close> gives \<open>-1\<close> when there is
  none, and \<open>slice\<close> then stops one character before the end), and the top-level parts
  between the outer round brackets.
\<close>

definition genericArguments :: "string \<Rightarrow> string list" where
  "genericArguments rawType =
     (let first = indexOf rawType ''<''; last = lastIndexOf rawType CHR ''>''
      in splitByTopLevelCommas (slice rawType (first + 1) last))"

definition tupleElements :: "string \<Rightarrow> string list" where
  "tupleElements rawType = splitByTopLevelCommas (slice rawType 1 (int (length rawType) - 1))"

definition isTuple :: "string \<Rightarrow> bool" where
  "isTuple rawType = (startsWith rawType ''('' \<and> endsWith rawType '')'')"

subsection \<open>Every part of a split is a piece of the string\<close>

lemma prefix_rev_dropWhile: "prefix (rev (dropWhile P (rev s))) s"
proof -
  have "rev s = takeWhile P (rev s) @ dropWhile P (rev s)" by simp
  then have "s = rev (dropWhile P (rev s)) @ rev (takeWhile P (rev s))"
    by (metis rev_append rev_rev_ident)
  then show ?thesis by (metis prefixI)
qed

lemma sublist_trim: "sublist (trim s) s"
proof -
  have "prefix (trim s) (dropWhile isSpace s)"
    unfolding trim_def by (rule prefix_rev_dropWhile)
  moreover have "suffix (dropWhile isSpace s) s" by (rule suffix_dropWhile)
  ultimately show ?thesis
    by (meson prefix_imp_sublist suffix_imp_sublist sublist_order.order.trans)
qed

lemma sublist_trim_trans: "sublist q s \<Longrightarrow> sublist (trim q) s"
  by (meson sublist_trim sublist_order.order.trans)

lemma splitLoop_sublist:
  "splitLoop str result currentPart d = (result', currentPart') \<Longrightarrow>
   (\<forall>p \<in> set result'. p \<in> set result \<or> sublist p (currentPart @ str)) \<and>
   sublist currentPart' (currentPart @ str)"
proof (induction str arbitrary: result currentPart d)
  case Nil
  then show ?case by auto
next
  case (Cons c cs)
  have app: "\<And>p. sublist p ((currentPart @ [c]) @ cs) \<Longrightarrow> sublist p (currentPart @ c # cs)"
    by simp
  have "sublist cs (currentPart @ c # cs)"
    using sublist_append_leftI[of cs "currentPart @ [c]"] by simp
  then have skip: "\<And>p. sublist p ([] @ cs) \<Longrightarrow> sublist p (currentPart @ c # cs)"
    by (auto intro: sublist_order.order.trans)
  have cur: "sublist (trim currentPart) (currentPart @ c # cs)"
    by (rule sublist_trim_trans) simp
  consider (lt) "c = CHR ''<''" | (gt) "c \<noteq> CHR ''<''" "c = CHR ''>''"
    | (comma) "c \<noteq> CHR ''<''" "c \<noteq> CHR ''>''" "c = CHR '','' \<and> d = 0"
    | (other) "c \<noteq> CHR ''<''" "c \<noteq> CHR ''>''" "\<not> (c = CHR '','' \<and> d = 0)"
    by blast
  then show ?case
  proof cases
    case lt
    with Cons.prems
    have "splitLoop cs result (currentPart @ [c]) (d + 1) = (result', currentPart')" by simp
    from Cons.IH[OF this] app show ?thesis by blast
  next
    case gt
    with Cons.prems
    have "splitLoop cs result (currentPart @ [c]) (d - 1) = (result', currentPart')" by simp
    from Cons.IH[OF this] app show ?thesis by blast
  next
    case comma
    with Cons.prems
    have "splitLoop cs (result @ [trim currentPart]) [] d = (result', currentPart')" by simp
    from Cons.IH[OF this] skip cur show ?thesis by auto
  next
    case other
    with Cons.prems
    have "splitLoop cs result (currentPart @ [c]) d = (result', currentPart')" by simp
    from Cons.IH[OF this] app show ?thesis by blast
  qed
qed

lemma splitByTopLevelCommas_sublist:
  assumes "p \<in> set (splitByTopLevelCommas str)"
  shows "sublist p str"
proof -
  obtain result currentPart where loop: "splitLoop str [] [] 0 = (result, currentPart)"
    by (cases "splitLoop str [] [] 0")
  from splitLoop_sublist[OF loop]
  have parts: "\<forall>q \<in> set result. sublist q str" and cur: "sublist currentPart str" by auto
  from cur have "sublist (trim currentPart) str" by (rule sublist_trim_trans)
  with parts assms loop show ?thesis
    by (auto simp: splitByTopLevelCommas_def split: if_splits)
qed

lemma sublist_slice: "sublist (slice s i j) s"
  unfolding slice_def Let_def
  by (meson sublist_take sublist_drop sublist_order.order.trans)

lemma length_slice_less: "0 < sliceIndex s i \<Longrightarrow> s \<noteq> [] \<Longrightarrow> length (slice s i j) < length s"
  unfolding slice_def Let_def by (cases s) (auto simp: min_def)

lemma length_sublist_le: "sublist p s \<Longrightarrow> length p \<le> length s"
  by (auto simp: sublist_def)

lemma genericArguments_sublist:
  "p \<in> set (genericArguments rawType) \<Longrightarrow> sublist p rawType"
  unfolding genericArguments_def Let_def
  by (meson splitByTopLevelCommas_sublist sublist_slice sublist_order.order.trans)

lemma tupleElements_sublist:
  "p \<in> set (tupleElements rawType) \<Longrightarrow> sublist p rawType"
  unfolding tupleElements_def
  by (meson splitByTopLevelCommas_sublist sublist_slice sublist_order.order.trans)

lemma genericArguments_shorter:
  assumes "0 \<le> indexOf rawType ''<''" and "p \<in> set (genericArguments rawType)"
  shows "length p < length rawType"
proof -
  from assms(1) have ne: "rawType \<noteq> []" by (auto simp: indexOf_def)
  with assms(1) have "0 < sliceIndex rawType (indexOf rawType ''<'' + 1)"
    by (cases rawType) (auto simp: sliceIndex_def)
  then have "length (slice rawType (indexOf rawType ''<'' + 1) (lastIndexOf rawType CHR ''>''))
      < length rawType"
    using ne by (rule length_slice_less)
  moreover from assms(2)
  have "sublist p (slice rawType (indexOf rawType ''<'' + 1) (lastIndexOf rawType CHR ''>''))"
    unfolding genericArguments_def Let_def by (rule splitByTopLevelCommas_sublist)
  ultimately show ?thesis using length_sublist_le by fastforce
qed

lemma tupleElements_shorter:
  assumes "isTuple rawType" and "p \<in> set (tupleElements rawType)"
  shows "length p < length rawType"
proof -
  from assms(1) have ne: "rawType \<noteq> []" by (auto simp: isTuple_def startsWith_def)
  then have "0 < sliceIndex rawType 1"
    by (cases rawType) (auto simp: sliceIndex_def)
  then have "length (slice rawType 1 (int (length rawType) - 1)) < length rawType"
    using ne by (rule length_slice_less)
  moreover from assms(2)
  have "sublist p (slice rawType 1 (int (length rawType) - 1))"
    unfolding tupleElements_def by (rule splitByTopLevelCommas_sublist)
  ultimately show ?thesis using length_sublist_le by fastforce
qed

subsection \<open>The parser\<close>

text \<open>
  \<open>recursiveParseType\<close>. Both \<open>if\<close> statements of the source run, so a string with a
  \<open><\<close> that is also wrapped in round brackets gets the sub-types of both. The base
  name stays empty for a tuple. The recursion is accepted with the length of the string
  as measure.
\<close>

function recursiveParseType :: "string \<Rightarrow> Type" where
  "recursiveParseType rawType =
     Type (if isTuple rawType then [] else trim (hd (split CHR ''<'' rawType)))
          ''unknown'' ''external''
          ((if 0 \<le> indexOf rawType ''<''
            then map recursiveParseType (genericArguments rawType) else []) @
           (if isTuple rawType
            then map recursiveParseType (tupleElements rawType) else []))"
  by pat_completeness auto
termination
  by (relation "measure length") (auto simp: genericArguments_shorter tupleElements_shorter)

declare recursiveParseType.simps [simp del]

text \<open>The arguments of the recursive calls made for one input, in call order.\<close>

definition recursiveCallArguments :: "string \<Rightarrow> string list" where
  "recursiveCallArguments rawType =
     (if 0 \<le> indexOf rawType ''<'' then genericArguments rawType else []) @
     (if isTuple rawType then tupleElements rawType else [])"


section \<open>Depth-aware scanner\<close>

text \<open>The frozen table \<open>BRACKETS\<close>.\<close>

definition BRACKETS_ANGLE :: int where "BRACKETS_ANGLE = 1"
definition BRACKETS_ROUND :: int where "BRACKETS_ROUND = 2"
definition BRACKETS_BOX :: int where "BRACKETS_BOX = 4"
definition BRACKETS_CURLY :: int where "BRACKETS_CURLY = 8"
definition BRACKETS_STRING :: int where "BRACKETS_STRING = 16"
definition BRACKETS_CHAR :: int where "BRACKETS_CHAR = 32"
definition BRACKETS_ALL :: int where "BRACKETS_ALL = 63"

text \<open>
  \<open>bracketsToIncludes\<close> updates the array of six counters in place and returns whether
  they add up to zero; the model returns the answer together with the updated array.
  \<open>bump\<close> is one \<open>if (...) current[i]++\<close> or \<open>current[i]--\<close>, and \<open>toggle\<close> one
  \<open>if (...) current[i] = Math.abs(current[i] - 1)\<close>.
\<close>

definition bump :: "int list \<Rightarrow> nat \<Rightarrow> bool \<Rightarrow> int \<Rightarrow> int list" where
  "bump current i cond d = (if cond then current[i := current ! i + d] else current)"

definition toggle :: "int list \<Rightarrow> nat \<Rightarrow> bool \<Rightarrow> int list" where
  "toggle current i cond = (if cond then current[i := \<bar>current ! i - 1\<bar>] else current)"

definition bracketsToIncludes :: "int list \<Rightarrow> int \<Rightarrow> char \<Rightarrow> bool \<times> int list" where
  "bracketsToIncludes current brackets char =
     (let c1 = bump current 0 (brackets AND BRACKETS_ANGLE \<noteq> 0 \<and> char = CHR ''<'') 1;
          c2 = bump c1 0 (brackets AND BRACKETS_ANGLE \<noteq> 0 \<and> char = CHR ''>'') (-1);
          c3 = bump c2 1 (brackets AND BRACKETS_ROUND \<noteq> 0 \<and> char = CHR ''('') 1;
          c4 = bump c3 1 (brackets AND BRACKETS_ROUND \<noteq> 0 \<and> char = CHR '')'') (-1);
          c5 = bump c4 2 (brackets AND BRACKETS_BOX \<noteq> 0 \<and> char = CHR ''['') 1;
          c6 = bump c5 2 (brackets AND BRACKETS_BOX \<noteq> 0 \<and> char = CHR '']'') (-1);
          c7 = bump c6 3 (brackets AND BRACKETS_CURLY \<noteq> 0 \<and> char = CHR ''{'') 1;
          c8 = bump c7 3 (brackets AND BRACKETS_CURLY \<noteq> 0 \<and> char = CHR ''}'') (-1);
          c9 = toggle c8 4 (brackets AND BRACKETS_STRING \<noteq> 0 \<and> char = CHR 0x22);
          c10 = toggle c9 5 (brackets AND BRACKETS_CHAR \<noteq> 0 \<and> char = CHR 0x27)
      in (sum_list c10 = 0, c10))"

text \<open>
  \<open>findNext\<close>: the \<open>for\<close> loop runs over the rest of the string from \<open>startIndex\<close>;
  the counters are updated at every character, also when the character is not taken.
\<close>

fun findNextFrom :: "string \<Rightarrow> string \<Rightarrow> int \<Rightarrow> int list \<Rightarrow> int \<Rightarrow> int" where
  "findNextFrom [] search ignore depths index = -1"
| "findNextFrom (char # rest) search ignore depths index =
     (case bracketsToIncludes depths ignore char of
        (included, depths') \<Rightarrow>
          if included \<and> startsWith (char # rest) search then index
          else findNextFrom rest search ignore depths' (index + 1))"

definition findNext :: "string \<Rightarrow> string \<Rightarrow> int \<Rightarrow> int \<Rightarrow> int" where
  "findNext str search ignore startIndex =
     findNextFrom (drop (nat startIndex) str) search ignore [0, 0, 0, 0, 0, 0] startIndex"

section \<open>Comment and layout normaliser\<close>

text \<open>
  The \<open>while\<close> loop of \<open>stripRightComment\<close>. Its condition reads the outer variable
  \<open>index\<close>, which is \<open>0\<close> and is never assigned: the body declares a second
  \<open>index\<close> with \<open>let\<close> (here \<open>index'\<close>), and calls \<open>findNext\<close> without a start
  index. The loop may therefore not return, so it is a partial function: \<open>None\<close> stands
  for a call that never returns.
\<close>

partial_function (option) stripRightCommentLoop :: "string \<Rightarrow> int \<Rightarrow> string option" where
  "stripRightCommentLoop line index =
     (if index > -1 \<and> index < int (length line) - 1 then
        (let index' = findNext line ''/'' (BRACKETS_STRING OR BRACKETS_CHAR) 0
         in if index' \<noteq> -1 \<and> charAt line (index' + 1) = Some CHR ''/''
            then Some (substring0 line index')
            else stripRightCommentLoop line index)
      else Some line)"

definition stripRightComment :: "string \<Rightarrow> string option" where
  "stripRightComment line =
     (if indexOf line ''//'' = -1 then Some line else stripRightCommentLoop line 0)"

text \<open>The test of the \<open>if\<close> in the loop body, for the index that \<open>findNext\<close> gave.\<close>

definition commentMarkerAt :: "string \<Rightarrow> int \<Rightarrow> bool" where
  "commentMarkerAt line index' = (index' \<noteq> -1 \<and> charAt line (index' + 1) = Some CHR ''/'')"

text \<open>Exceptions of the JavaScript runtime that the code can raise.\<close>

datatype js_error = TypeError

text \<open>The filter of \<open>preParseText\<close> drops the lines for which this holds.\<close>

definition isCommentLine :: "string \<Rightarrow> bool" where
  "isCommentLine line = (startsWith (trim line) ''//'' \<or> startsWith (trim line) ''#'')"

text \<open>
  \<open>noComments.forEach((line, i, arr) => (arr[i] = stripRightComment(line)))\<close>: it
  returns only if every call returns.
\<close>

fun stripRightComments :: "string list \<Rightarrow> string list option" where
  "stripRightComments [] = Some []"
| "stripRightComments (line # lines) =
     (case stripRightComment line of
        None \<Rightarrow> None
      | Some stripped \<Rightarrow> map_option ((#) stripped) (stripRightComments lines))"

text \<open>
  The pattern \<open>/\/\*.*\*\//\<close>: at an opening \<open>/*\<close> the greedy \<open>.*\<close> runs to the last
  \<open>*/\<close> before the next line terminator (the dot matches no line terminator).
  \<open>matchBlockComment\<close> gives the length of the match at the start of a string, and
  \<open>removeBlockComments 0\<close> deletes every match, from left to right.
\<close>

definition isLineTerminator :: "char \<Rightarrow> bool" where
  "isLineTerminator c = (c = CHR 0x0A \<or> c = CHR 0x0D)"

fun lastClose :: "string \<Rightarrow> nat \<Rightarrow> nat option \<Rightarrow> nat option" where
  "lastClose [] i found = found"
| "lastClose (c # cs) i found =
     (if isLineTerminator c then found
      else lastClose cs (i + 1) (if startsWith (c # cs) ''*/'' then Some (i + 2) else found))"

definition matchBlockComment :: "string \<Rightarrow> nat option" where
  "matchBlockComment s = (if startsWith s ''/*'' then lastClose (drop 2 s) 2 None else None)"

fun removeBlockComments :: "nat \<Rightarrow> string \<Rightarrow> string" where
  "removeBlockComments skip [] = []"
| "removeBlockComments (Suc skip) (c # cs) = removeBlockComments skip cs"
| "removeBlockComments 0 (c # cs) =
     (case matchBlockComment (c # cs) of
        Some n \<Rightarrow> removeBlockComments (n - 1) cs
      | None \<Rightarrow> c # removeBlockComments 0 cs)"

text \<open>
  \<open>String.prototype.replaceAll\<close> with a regular expression as search value: ECMAScript
  (22.1.3.19, step 2.b) throws a \<open>TypeError\<close> when the flags of the expression do not
  contain \<open>g\<close>, before anything is matched. The first argument says whether the
  expression has the flag, the second is the replacement of all its matches.
\<close>

definition replaceAllRegExp :: "bool \<Rightarrow> (string \<Rightarrow> string) \<Rightarrow> string \<Rightarrow> js_error + string" where
  "replaceAllRegExp globalFlag replaceMatches s =
     (if globalFlag then Inr (replaceMatches s) else Inl TypeError)"

text \<open>\<open>s.replaceAll(search, replacement)\<close> for a one-character search string.\<close>

definition replaceAll :: "char \<Rightarrow> string \<Rightarrow> string \<Rightarrow> string" where
  "replaceAll search replacement s = concat (map (\<lambda>c. if c = search then replacement else [c]) s)"

text \<open>
  \<open>preParseText\<close>. The lines are joined with the empty string. The block comment
  pattern is written without flags in the source, so the flag argument is \<open>False\<close>.
  The result is \<open>None\<close> when the function does not return, \<open>Some (Inl e)\<close> when it
  throws \<open>e\<close>, and \<open>Some (Inr text)\<close> when it returns \<open>text\<close>.
\<close>

definition preParseText :: "string \<Rightarrow> (js_error + string) option" where
  "preParseText str =
     (case stripRightComments (filter (\<lambda>line. \<not> isCommentLine line) (split CHR 0x0A str)) of
        None \<Rightarrow> None
      | Some noComments \<Rightarrow>
          Some (case replaceAllRegExp False (removeBlockComments 0) (concat noComments) of
                  Inl error \<Rightarrow> Inl error
                | Inr content \<Rightarrow>
                    Inr (replaceAll CHR ''}'' [CHR ''}'', CHR 0x0A]
                          (replaceAll CHR ''{'' [CHR ''{'', CHR 0x0A]
                            (replaceAll CHR '';'' [CHR '';'', CHR 0x0A] content)))))"


section \<open>Data model\<close>

text \<open>
  The interfaces of the source as records. \<open>DependencyInfo\<close> and \<open>ClassDependency\<close>
  share the fields of \<open>ClassInfo\<close>, so they extend it; a function of the source that takes
  a \<open>DependencyInfo\<close> accepts every object with these fields, which is the record scheme
  here. A field whose source name is taken in the theory already is renamed: in \<open>Class\<close>
  \<open>className\<close> is \<open>clsName\<close>; in \<open>BaseFile\<close> and \<open>File\<close> \<open>namespace\<close>,
  \<open>imports\<close> and \<open>projectName\<close> are \<open>fileNamespace\<close>, \<open>fileImports\<close> and
  \<open>fileProjectName\<close>; \<open>functions\<close> is \<open>funcs\<close>; the \<open>name\<close> of a constructor is
  \<open>constructorName\<close>. An optional field is an \<open>option\<close>.
\<close>

record ClassInfo =
  namespace :: string
  projectName :: string

record DependencyInfo = ClassInfo +
  className :: string

record ClassDependency = DependencyInfo +
  dependencies :: "DependencyInfo list"
  filePath :: string

type_synonym ClassMapping = "string \<rightharpoonup> ClassInfo"

record Callable =
  parameters :: "Type list"

record Function = Callable +
  returnType :: "Type option"

record Constructor = Callable +
  constructorName :: string

record ClassBody =
  funcs :: "Function list"
  constructors :: "Constructor list"
  lines :: "Type list"
  staticCalls :: "Type list"
  variables :: "Type list"

record Class = ClassBody +
  clsName :: string
  inheritances :: "Type list option"

record BaseFile =
  classes :: "Class list"
  fileNamespace :: string
  fileImports :: "string list"

record File = BaseFile +
  fileProjectName :: string

section \<open>Symbol registry\<close>

text \<open>
  The pattern \<open>/namespace\s+([\w.]+)/\<close>. \<open>matchNamespace\<close> matches it at the start of a
  string and gives the captured name: all the white space after the keyword (at least one
  character), then the longest run of word characters and dots (at least one character).
  The two classes of characters are disjoint, so a shorter run of white space never gives
  a match where the longest does not. \<open>execNamespace\<close> is \<open>exec\<close>: the match at the
  leftmost position.
\<close>

definition isNamespaceChar :: "char \<Rightarrow> bool" where
  "isNamespaceChar c = (isWord c \<or> c = CHR ''.'')"

definition matchNamespace :: "string \<Rightarrow> string option" where
  "matchNamespace s =
     (if startsWith s ''namespace'' then
        (let rest = drop 9 s; name = takeWhile isNamespaceChar (dropWhile isSpace rest)
         in if takeWhile isSpace rest \<noteq> [] \<and> name \<noteq> [] then Some name else None)
      else None)"

fun execNamespace :: "string \<Rightarrow> string option" where
  "execNamespace [] = None"
| "execNamespace (c # cs) =
     (case matchNamespace (c # cs) of
        Some name \<Rightarrow> Some name
      | None \<Rightarrow> execNamespace cs)"

text \<open>
  The pattern \<open>/\bclass\s+(\w{1,60})/g\<close>. \<open>matchClass\<close> matches the part after the
  word boundary at the start of a string and gives the captured name with the length of the
  match. \<open>classNames\<close> is the loop \<open>while ((match = classRegex.exec(content)) !== null)\<close>:
  it gives the captured names from left to right. Its first argument says whether the
  character before the current position is a word character (the word boundary needs that
  it is not); the second counts the characters of the last match that are still to be
  passed, since the next search starts where the last match ended.
\<close>

definition MAX_CLASS_NAME_LENGTH :: nat where
  "MAX_CLASS_NAME_LENGTH = 60"

definition matchClass :: "string \<Rightarrow> (string \<times> nat) option" where
  "matchClass s =
     (if startsWith s ''class'' then
        (let rest = drop 5 s; spaces = takeWhile isSpace rest;
             name = take MAX_CLASS_NAME_LENGTH (takeWhile isWord (dropWhile isSpace rest))
         in if spaces \<noteq> [] \<and> name \<noteq> [] then Some (name, 5 + length spaces + length name)
            else None)
      else None)"

fun classNames :: "bool \<Rightarrow> nat \<Rightarrow> string \<Rightarrow> string list" where
  "classNames prevWord skip [] = []"
| "classNames prevWord (Suc skip) (c # cs) = classNames (isWord c) skip cs"
| "classNames prevWord 0 (c # cs) =
     (case (if prevWord then None else matchClass (c # cs)) of
        Some (name, n) \<Rightarrow> name # classNames (isWord c) (n - 1) cs
      | None \<Rightarrow> classNames (isWord c) 0 cs)"

text \<open>\<open>namespaceMatch ? namespaceMatch[1] : ""\<close>.\<close>

definition namespaceOf :: "string \<Rightarrow> string" where
  "namespaceOf content = (case execNamespace content of Some name \<Rightarrow> name | None \<Rightarrow> [])"

text \<open>
  The registry is a \<open>Map\<close> from strings to \<open>ClassInfo\<close>; \<open>set\<close> overwrites. The body
  of the loop of \<open>registerClassesFromFile\<close> sets the bare name and, for a non-empty
  namespace, the qualified name.
\<close>

fun registerClasses :: "string list \<Rightarrow> string \<Rightarrow> string \<Rightarrow> ClassMapping \<Rightarrow> ClassMapping" where
  "registerClasses [] ns pn classRegistry = classRegistry"
| "registerClasses (cn # rest) ns pn classRegistry =
     (let r1 = classRegistry(cn \<mapsto> \<lparr>namespace = ns, projectName = pn\<rparr>);
          r2 = (if ns \<noteq> [] then r1(ns @ ''.'' @ cn \<mapsto> \<lparr>namespace = ns, projectName = pn\<rparr>) else r1)
      in registerClasses rest ns pn r2)"

definition registerClassesFromFile :: "string \<Rightarrow> string \<Rightarrow> ClassMapping \<Rightarrow> ClassMapping" where
  "registerClassesFromFile content pn classRegistry =
     registerClasses (classNames False 0 content) (namespaceOf content) pn classRegistry"


section \<open>First pass\<close>

text \<open>
  Reading a file either gives its content or fails: a \<open>reader\<close> gives \<open>None\<close> when
  \<open>readFile\<close> rejects. The \<open>catch\<close> of the first pass leaves the registry as it is and
  goes on with the next file. The projects are the entries of the map
  \<open>projectSourceFiles\<close> in iteration order.
\<close>

type_synonym reader = "string \<Rightarrow> string option"

fun registerFiles :: "reader \<Rightarrow> string \<Rightarrow> string list \<Rightarrow> ClassMapping \<Rightarrow> ClassMapping" where
  "registerFiles readFile pn [] classRegistry = classRegistry"
| "registerFiles readFile pn (path # sourceFiles) classRegistry =
     registerFiles readFile pn sourceFiles
       (case readFile path of
          None \<Rightarrow> classRegistry
        | Some content \<Rightarrow> registerClassesFromFile content pn classRegistry)"

fun firstPass :: "reader \<Rightarrow> (string \<times> string list) list \<Rightarrow> ClassMapping \<Rightarrow> ClassMapping" where
  "firstPass readFile [] classRegistry = classRegistry"
| "firstPass readFile ((pn, sourceFiles) # projects) classRegistry =
     firstPass readFile projects (registerFiles readFile pn sourceFiles classRegistry)"

section \<open>Dependency resolver\<close>

definition primitiveTypes :: "string list" where
  "primitiveTypes =
     [''int'', ''string'', ''bool'', ''float'', ''double'', ''decimal'', ''char'', ''byte'',
      ''sbyte'', ''short'', ''ushort'', ''uint'', ''long'', ''ulong'', ''object'', ''dynamic'',
      ''var'', ''void'', ''this'', ''base'', ''DateTime'', ''return'', ''Guid'', ''TimeSpan'',
      ''Task'', ''List'', ''Dictionary'', ''IEnumerable'', ''IList'', ''IDictionary'',
      ''ICollection'']"

definition isPrimitiveType :: "string \<Rightarrow> bool" where
  "isPrimitiveType type =
     (let baseType = trim (hd (split CHR ''<'' type))
      in baseType \<in> set primitiveTypes \<or> startsWith baseType ''Action'' \<or>
         startsWith baseType ''Func'' \<or> startsWith baseType ''System.'')"

definition resolveFullyQualifiedName :: "string \<Rightarrow> ClassMapping \<Rightarrow> DependencyInfo" where
  "resolveFullyQualifiedName fullName classRegistry =
     (let parts = split CHR ''.'' fullName;
          cn = last parts;
          ns = join ''.'' (butlast parts)
      in case classRegistry fullName of
           Some info \<Rightarrow>
             \<lparr>namespace = namespace info, projectName = projectName info, className = cn\<rparr>
         | None \<Rightarrow> \<lparr>namespace = ns, projectName = ''external'', className = cn\<rparr>)"

definition resolveWithNamespace :: "string \<Rightarrow> string \<Rightarrow> ClassMapping \<Rightarrow> DependencyInfo option" where
  "resolveWithNamespace baseType currentNamespace classRegistry =
     (let fullName = (if currentNamespace \<noteq> [] then currentNamespace @ ''.'' @ baseType
                      else baseType)
      in case classRegistry fullName of
           None \<Rightarrow> None
         | Some info \<Rightarrow>
             Some \<lparr>namespace = namespace info, projectName = projectName info,
                   className = baseType\<rparr>)"

fun resolveWithImports :: "string \<Rightarrow> string list \<Rightarrow> ClassMapping \<Rightarrow> DependencyInfo option" where
  "resolveWithImports baseType [] classRegistry = None"
| "resolveWithImports baseType (imp # imports) classRegistry =
     (case classRegistry (imp @ ''.'' @ baseType) of
        Some info \<Rightarrow>
          Some \<lparr>namespace = imp, projectName = projectName info, className = baseType\<rparr>
      | None \<Rightarrow> resolveWithImports baseType imports classRegistry)"

definition resolveClassDependency ::
  "string \<Rightarrow> string \<Rightarrow> string list \<Rightarrow> ClassMapping \<Rightarrow> DependencyInfo option" where
  "resolveClassDependency baseType currentNamespace imports classRegistry =
     (if CHR ''.'' \<in> set baseType then Some (resolveFullyQualifiedName baseType classRegistry)
      else case resolveWithNamespace baseType currentNamespace classRegistry of
        Some fromCurrentNamespace \<Rightarrow> Some fromCurrentNamespace
      | None \<Rightarrow>
          (case resolveWithImports baseType imports classRegistry of
             Some fromImports \<Rightarrow> Some fromImports
           | None \<Rightarrow>
               if baseType \<noteq> [] then
                 Some \<lparr>namespace = ''unknown'', projectName = ''external'', className = baseType\<rparr>
               else None))"

text \<open>
  The loop of \<open>resolveDependencies\<close> with its two local variables, the set \<open>resolved\<close>
  and the list \<open>resolvedDependencies\<close>. The parameters \<open>imports\<close>,
  \<open>currentNamespace\<close> and \<open>classItem\<close> of \<open>resolveDependencies\<close> are not read by its
  body, which takes the namespace and the imports from \<open>file\<close>.
\<close>

fun resolveLoop ::
  "'a DependencyInfo_scheme list \<Rightarrow> string \<Rightarrow> ClassMapping \<Rightarrow> File \<Rightarrow> string set \<Rightarrow>
   DependencyInfo list \<Rightarrow> DependencyInfo list" where
  "resolveLoop [] currentClassName classRegistry file resolved resolvedDependencies =
     resolvedDependencies"
| "resolveLoop (dep # deps) currentClassName classRegistry file resolved resolvedDependencies =
     (if isPrimitiveType (className dep) \<or> className dep = currentClassName
      then resolveLoop deps currentClassName classRegistry file resolved resolvedDependencies
      else
        (let baseType = trim (hd (split CHR ''<'' (className dep)))
         in if baseType \<in> resolved
            then resolveLoop deps currentClassName classRegistry file resolved resolvedDependencies
            else
              (case resolveClassDependency baseType (fileNamespace file) (fileImports file)
                      classRegistry of
                 Some dependencyInfo \<Rightarrow>
                   resolveLoop deps currentClassName classRegistry file
                     (insert baseType resolved) (resolvedDependencies @ [dependencyInfo])
               | None \<Rightarrow>
                   resolveLoop deps currentClassName classRegistry file resolved
                     resolvedDependencies)))"

definition resolveDependencies ::
  "'a DependencyInfo_scheme list \<Rightarrow> string list \<Rightarrow> string \<Rightarrow> string \<Rightarrow> ClassMapping \<Rightarrow>
   File \<Rightarrow> Class \<Rightarrow> DependencyInfo list" where
  "resolveDependencies deps imports currentNamespace currentClassName classRegistry
     file classItem =
     resolveLoop deps currentClassName classRegistry file {} []"

text \<open>
  \<open>resolveClassDependencies\<close>: the \<open>forEach\<close> over \<open>file.classes\<close> with the local
  array \<open>total\<close> (here \<open>totalSoFar\<close>). The first argument of the call of
  \<open>resolveDependencies\<close> is evaluated before the \<open>push\<close>, so it is the array of the
  records pushed for the classes before \<open>c\<close>.
\<close>

fun resolveClasses ::
  "string \<Rightarrow> File \<Rightarrow> ClassMapping \<Rightarrow> Class list \<Rightarrow> ClassDependency list \<Rightarrow> ClassDependency list"
  where
  "resolveClasses path file classRegistry [] totalSoFar = totalSoFar"
| "resolveClasses path file classRegistry (c # cs) totalSoFar =
     resolveClasses path file classRegistry cs
       (totalSoFar @
        [\<lparr>namespace = fileNamespace file, projectName = fileProjectName file,
          className = clsName c,
          dependencies =
            resolveDependencies totalSoFar (fileImports file) (fileNamespace file) (clsName c)
              classRegistry file c,
          filePath = path\<rparr>])"

text \<open>The object pushed for the class \<open>c\<close> when \<open>earlier\<close> are the records pushed before.\<close>

definition recordOf :: "string \<Rightarrow> File \<Rightarrow> ClassMapping \<Rightarrow> Class \<Rightarrow> ClassDependency list \<Rightarrow> ClassDependency" where
  "recordOf path file classRegistry c earlier =
     \<lparr>namespace = fileNamespace file, projectName = fileProjectName file,
      className = clsName c,
      dependencies =
        resolveDependencies earlier (fileImports file) (fileNamespace file) (clsName c)
          classRegistry file c,
      filePath = path\<rparr>"

definition resolveClassDependencies ::
  "string \<Rightarrow> File \<Rightarrow> ClassMapping \<Rightarrow> ClassDependency list" where
  "resolveClassDependencies path file classRegistry =
     resolveClasses path file classRegistry (classes file) []"

section \<open>Second pass\<close>

text \<open>
  \<open>extractClassesFromFile\<close> first calls \<open>preParseText\<close>; when that call throws or does
  not return, so does \<open>extractClassesFromFile\<close>. The statements after the call (namespace,
  imports, class segmentation and the per-class extraction) are the parameter
  \<open>extractFromCleaned\<close>, a function of the normalised text that may itself throw or not
  return: every result below holds for all such functions.
\<close>

type_synonym extractor = "string \<Rightarrow> (js_error + BaseFile) option"

definition extractClassesFromFile :: "extractor \<Rightarrow> string \<Rightarrow> (js_error + BaseFile) option" where
  "extractClassesFromFile extractFromCleaned content =
     (case preParseText content of
        None \<Rightarrow> None
      | Some (Inl error) \<Rightarrow> Some (Inl error)
      | Some (Inr cleanedContent) \<Rightarrow> extractFromCleaned cleanedContent)"

text \<open>
  The second pass. A failed read and an exception thrown while the file is analysed are
  caught, and the loop goes on with the next file; a call that does not return is not
  caught, and then \<open>parseClassDependencies\<close> does not return (\<open>None\<close>).
\<close>

fun analyzeFiles ::
  "extractor \<Rightarrow> reader \<Rightarrow> ClassMapping \<Rightarrow> string \<Rightarrow> string list \<Rightarrow> ClassDependency list \<Rightarrow>
   ClassDependency list option" where
  "analyzeFiles ex readFile classRegistry pn [] classDependencies = Some classDependencies"
| "analyzeFiles ex readFile classRegistry pn (path # sourceFiles) classDependencies =
     (case readFile path of
        None \<Rightarrow> analyzeFiles ex readFile classRegistry pn sourceFiles classDependencies
      | Some content \<Rightarrow>
          (case extractClassesFromFile ex content of
             None \<Rightarrow> None
           | Some (Inl error) \<Rightarrow>
               analyzeFiles ex readFile classRegistry pn sourceFiles classDependencies
           | Some (Inr rawFile) \<Rightarrow>
               analyzeFiles ex readFile classRegistry pn sourceFiles
                 (classDependencies @
                  resolveClassDependencies path
                    \<lparr>classes = classes rawFile, fileNamespace = fileNamespace rawFile,
                     fileImports = fileImports rawFile, fileProjectName = pn\<rparr>
                    classRegistry)))"

fun secondPass ::
  "extractor \<Rightarrow> reader \<Rightarrow> ClassMapping \<Rightarrow> (string \<times> string list) list \<Rightarrow>
   ClassDependency list \<Rightarrow> ClassDependency list option" where
  "secondPass ex readFile classRegistry [] classDependencies = Some classDependencies"
| "secondPass ex readFile classRegistry ((pn, sourceFiles) # projects) classDependencies =
     (case analyzeFiles ex readFile classRegistry pn sourceFiles classDependencies of
        None \<Rightarrow> None
      | Some classDependencies' \<Rightarrow>
          secondPass ex readFile classRegistry projects classDependencies')"

text \<open>
  \<open>parseClassDependencies\<close>. The two passes read every file once each; the two readers
  are the outcomes of the reads of the first and of the second pass. The parameter
  \<open>complete\<close> is only logged.
\<close>

definition parseClassDependencies ::
  "extractor \<Rightarrow> reader \<Rightarrow> reader \<Rightarrow> (string \<times> string list) list \<Rightarrow> bool \<Rightarrow>
   ClassDependency list option" where
  "parseClassDependencies ex readFile1 readFile2 projectSourceFiles includeClassDependencies =
     (if \<not> includeClassDependencies then Some []
      else
        (let classRegistry = firstPass readFile1 projectSourceFiles Map.empty
         in secondPass ex readFile2 classRegistry projectSourceFiles []))"

section \<open>Registrations of the first pass\<close>

text \<open>
  The calls \<open>classRegistry.set(key, value)\<close> that the first pass makes, in the order in
  which it makes them: per class of a file the bare name and, for a non-empty namespace,
  the qualified name; per project its readable files in order; the projects in order.
  \<open>lastRegistered\<close> gives the value of the last call for a key, and
  \<open>applyRegistrations\<close> performs the calls on a registry.
\<close>

definition fileRegistrations :: "string \<Rightarrow> string \<Rightarrow> (string \<times> ClassInfo) list" where
  "fileRegistrations content pn =
     concat (map (\<lambda>cn.
         (cn, \<lparr>namespace = namespaceOf content, projectName = pn\<rparr>) #
         (if namespaceOf content \<noteq> []
          then [(namespaceOf content @ ''.'' @ cn,
                 \<lparr>namespace = namespaceOf content, projectName = pn\<rparr>)]
          else []))
       (classNames False 0 content))"

definition projectRegistrations :: "reader \<Rightarrow> string \<Rightarrow> string list \<Rightarrow> (string \<times> ClassInfo) list" where
  "projectRegistrations readFile pn sourceFiles =
     concat (map (\<lambda>path. case readFile path of
                             None \<Rightarrow> []
                           | Some content \<Rightarrow> fileRegistrations content pn) sourceFiles)"

definition registrations :: "reader \<Rightarrow> (string \<times> string list) list \<Rightarrow> (string \<times> ClassInfo) list" where
  "registrations readFile projects =
     concat (map (\<lambda>(pn, sourceFiles). projectRegistrations readFile pn sourceFiles) projects)"

definition lastRegistered :: "string \<Rightarrow> (string \<times> ClassInfo) list \<Rightarrow> ClassInfo option" where
  "lastRegistered key log =
     (let hits = filter (\<lambda>(k, info). k = key) log
      in if hits = [] then None else Some (snd (last hits)))"

definition applyRegistrations :: "(string \<times> ClassInfo) list \<Rightarrow> ClassMapping \<Rightarrow> ClassMapping" where
  "applyRegistrations log classRegistry = fold (\<lambda>(k, info) r. r(k \<mapsto> info)) log classRegistry"

text \<open>The project map without one file path.\<close>

definition removeFile :: "string \<Rightarrow> (string \<times> string list) list \<Rightarrow> (string \<times> string list) list" where
  "removeFile path projects =
     map (\<lambda>(pn, sourceFiles). (pn, filter (\<lambda>p. p \<noteq> path) sourceFiles)) projects"

section \<open>Example inputs\<close>

text \<open>
  The file of the end-to-end example as a working extractor would hand it to the resolver:
  the class \<open>Foo\<close> with its inheritance \<open>Base\<close>, its field of type \<open>List<Bar>\<close>, its
  method returning \<open>Bar\<close> and its instantiation of \<open>Bar\<close>, followed by the class
  \<open>Bar\<close>; and the registry of a project \<open>P\<close> that declares both in the namespace
  \<open>App\<close>.
\<close>

definition appFile :: File where
  "appFile =
     \<lparr>classes =
        [\<lparr>funcs = [\<lparr>parameters = [], returnType = Some (Type ''Bar'' ''unknown'' ''external'' [])\<rparr>],
          constructors = [],
          lines = [Type ''Bar'' ''unknown'' ''external'' []],
          staticCalls = [],
          variables = [Type ''List'' ''unknown'' ''external''
                         [Type ''Bar'' ''unknown'' ''external'' []]],
          clsName = ''Foo'',
          inheritances = Some [Type ''Base'' ''unknown'' ''external'' []]\<rparr>,
         \<lparr>funcs = [], constructors = [], lines = [], staticCalls = [], variables = [],
          clsName = ''Bar'', inheritances = None\<rparr>],
      fileNamespace = ''App'', fileImports = [], fileProjectName = ''P''\<rparr>"

definition appRegistry :: ClassMapping where
  "appRegistry =
     [''Foo'' \<mapsto> \<lparr>namespace = ''App'', projectName = ''P''\<rparr>,
      ''App.Foo'' \<mapsto> \<lparr>namespace = ''App'', projectName = ''P''\<rparr>,
      ''Bar'' \<mapsto> \<lparr>namespace = ''App'', projectName = ''P''\<rparr>,
      ''App.Bar'' \<mapsto> \<lparr>namespace = ''App'', projectName = ''P''\<rparr>]"

text \<open>
  A source file with the two classes of the end-to-end example, read under the path
  \<open>App.cs\<close>; every other path cannot be read.
\<close>

definition appSource :: string where
  "appSource = ''namespace App; class Foo : Base { private List<Bar> items; public Bar Make() { return new Bar(); } } class Bar { }''"

definition appReader :: reader where
  "appReader path = (if path = ''App.cs'' then Some appSource else None)"

definition noExtractor :: extractor where
  "noExtractor cleanedContent = Some (Inl TypeError)"

text \<open>Two projects that each declare a class \<open>Foo\<close> without a namespace.\<close>

definition twoFoo :: reader where
  "twoFoo path =
     (if path = ''a/Foo.cs'' then Some ''class Foo { }''
      else if path = ''b/Foo.cs'' then Some ''public class Foo { int x; }''
      else None)"

section \<open>Properties\<close>

subsection \<open>Splitting\<close>

text \<open>
  C7: \<open>splitByTopLevelCommas\<close> applied to \<open>"A, B<C,D>, E"\<close> returns exactly the three
  segments \<open>"A"\<close>, \<open>"B<C,D>"\<close> and \<open>"E"\<close>; the comma between the angle brackets is
  not a split point.
\<close>

theorem splitByTopLevelCommas_example:
  "splitByTopLevelCommas ''A, B<C,D>, E'' = [''A'', ''B<C,D>'', ''E'']"
  by (simp add: splitByTopLevelCommas_def trim_def isSpace_def)

subsection \<open>Type tree parser\<close>

lemma split_not_Nil: "split sep s \<noteq> []"
  by (induction s) (auto split: list.splits)

lemma split_absent: "sep \<notin> set s \<Longrightarrow> split sep s = [s]"
  by (induction s) auto

lemma indexOfFrom_absent: "c \<notin> set s \<Longrightarrow> indexOfFrom s [c] i = -1"
  by (induction s arbitrary: i) (auto simp: startsWith_def)

text \<open>
  C6: for every type expression containing neither \<open><\<close> nor \<open>(\<close>,
  \<open>recursiveParseType\<close> returns a leaf: the base name is the trimmed input and there
  are no children.
\<close>

theorem recursiveParseType_leaf:
  assumes "CHR ''<'' \<notin> set rawType" and "CHR ''('' \<notin> set rawType"
  shows "recursiveParseType rawType = Type (trim rawType) ''unknown'' ''external'' []"
proof -
  from assms(1) have "indexOf rawType ''<'' = -1"
    by (simp add: indexOf_def indexOfFrom_absent)
  moreover from assms(2) have "\<not> isTuple rawType"
    by (cases rawType) (auto simp: isTuple_def startsWith_def)
  moreover from assms(1) have "split CHR ''<'' rawType = [rawType]"
    by (rule split_absent)
  ultimately show ?thesis
    by (simp add: recursiveParseType.simps)
qed

theorem recursiveParseType_leaf_witness:
  "CHR ''<'' \<notin> set '' Bar '' \<and> CHR ''('' \<notin> set '' Bar '' \<and>
   recursiveParseType '' Bar '' = Type ''Bar'' ''unknown'' ''external'' []"
  using recursiveParseType_leaf [of "'' Bar ''"]
  by (simp add: trim_def isSpace_def)

text \<open>
  C5: the parser is a total function, and each recursive call is on a strictly shorter
  string that is a contiguous piece of the input: the children of the result are the
  results of the recursive calls, and every argument of such a call is shorter than the
  input and occurs in it.
\<close>

theorem recursiveParseType_terminates:
  "subTypes (recursiveParseType rawType) =
     map recursiveParseType (recursiveCallArguments rawType) \<and>
   (\<forall>p \<in> set (recursiveCallArguments rawType). length p < length rawType \<and> sublist p rawType)"
  by (subst recursiveParseType.simps)
     (auto simp: recursiveCallArguments_def genericArguments_shorter tupleElements_shorter
        genericArguments_sublist tupleElements_sublist)

theorem recursiveParseType_terminates_witness:
  "recursiveCallArguments ''Outer<A,B<C>>'' = [''A'', ''B<C>''] \<and>
   subTypes (recursiveParseType ''Outer<A,B<C>>'') =
     [recursiveParseType ''A'', recursiveParseType ''B<C>''] \<and>
   length ''B<C>'' < length ''Outer<A,B<C>>'' \<and> sublist ''B<C>'' ''Outer<A,B<C>>''"
proof -
  have args: "recursiveCallArguments ''Outer<A,B<C>>'' = [''A'', ''B<C>'']"
    by (simp add: recursiveCallArguments_def genericArguments_def tupleElements_def
        isTuple_def startsWith_def endsWith_def indexOf_def lastIndexOf_def slice_def
        sliceIndex_def splitByTopLevelCommas_def trim_def isSpace_def)
  show ?thesis
    using recursiveParseType_terminates [of "''Outer<A,B<C>>''"] unfolding args by simp
qed

subsection \<open>Comment stripping\<close>

text \<open>
  A call of the loop that is stuck (the condition holds and the character found by
  \<open>findNext\<close> does not start a comment marker) never returns: the loop state does not
  change.
\<close>

lemma stripRightCommentLoop_Some:
  "stripRightCommentLoop line index = Some y \<Longrightarrow>
   \<not> (index > -1 \<and> index < int (length line) - 1 \<and>
      \<not> commentMarkerAt line (findNext line ''/'' (BRACKETS_STRING OR BRACKETS_CHAR) 0))"
proof (rule stripRightCommentLoop.raw_induct
    [where P = "\<lambda>l i r. \<not> (i > -1 \<and> i < int (length l) - 1 \<and>
       \<not> commentMarkerAt l (findNext l ''/'' (BRACKETS_STRING OR BRACKETS_CHAR) 0))"])
  fix f :: "string \<Rightarrow> int \<Rightarrow> string option" and l i r
  assume IH: "\<And>l i r. f l i = Some r \<Longrightarrow>
      \<not> (i > -1 \<and> i < int (length l) - 1 \<and>
       \<not> commentMarkerAt l (findNext l ''/'' (BRACKETS_STRING OR BRACKETS_CHAR) 0))"
    and step: "(if i > -1 \<and> i < int (length l) - 1 then
        (let index' = findNext l ''/'' (BRACKETS_STRING OR BRACKETS_CHAR) 0
         in if index' \<noteq> -1 \<and> charAt l (index' + 1) = Some CHR ''/''
            then Some (substring0 l index')
            else f l i)
      else Some l) = Some r"
  show "\<not> (i > -1 \<and> i < int (length l) - 1 \<and>
       \<not> commentMarkerAt l (findNext l ''/'' (BRACKETS_STRING OR BRACKETS_CHAR) 0))"
  proof
    assume stuck: "i > -1 \<and> i < int (length l) - 1 \<and>
       \<not> commentMarkerAt l (findNext l ''/'' (BRACKETS_STRING OR BRACKETS_CHAR) 0)"
    with step have "f l i = Some r"
      by (simp add: Let_def commentMarkerAt_def split: if_splits)
    from IH[OF this] stuck show False by blast
  qed
qed

lemma stripRightCommentLoop_diverges:
  assumes "index > -1" and "index < int (length line) - 1"
    and "\<not> commentMarkerAt line (findNext line ''/'' (BRACKETS_STRING OR BRACKETS_CHAR) 0)"
  shows "stripRightCommentLoop line index = None"
proof (cases "stripRightCommentLoop line index")
  case None
  then show ?thesis .
next
  case (Some y)
  from stripRightCommentLoop_Some[OF this] assms show ?thesis by simp
qed

lemma stripRightCommentLoop_found:
  assumes "index > -1" and "index < int (length line) - 1"
    and "commentMarkerAt line (findNext line ''/'' (BRACKETS_STRING OR BRACKETS_CHAR) 0)"
  shows "stripRightCommentLoop line index =
     Some (substring0 line (findNext line ''/'' (BRACKETS_STRING OR BRACKETS_CHAR) 0))"
  using assms by (subst stripRightCommentLoop.simps) (simp add: Let_def commentMarkerAt_def)

lemma indexOfFrom_found_length:
  "indexOfFrom s search i \<noteq> -1 \<Longrightarrow> 0 \<le> i \<Longrightarrow> length search \<le> length s"
proof (induction s search i rule: indexOfFrom.induct)
  case (1 search i)
  then show ?case by (simp split: if_splits)
next
  case (2 c cs search i)
  show ?case
  proof (cases "startsWith (c # cs) search")
    case True
    then have "length (take (length search) (c # cs)) = length search"
      unfolding startsWith_def by simp
    then show ?thesis by simp
  next
    case False
    with 2 show ?thesis by simp
  qed
qed

text \<open>
  What \<open>stripRightComment\<close> does on every line: it returns the line when the line has no
  \<open>//\<close>; otherwise it cuts the line when the first \<open>/\<close> outside a literal is followed by
  a second \<open>/\<close>, and does not return in every other case.
\<close>

lemma stripRightComment_eq:
  "stripRightComment line =
     (if indexOf line ''//'' = -1 then Some line
      else if commentMarkerAt line (findNext line ''/'' (BRACKETS_STRING OR BRACKETS_CHAR) 0)
        then Some (substring0 line (findNext line ''/'' (BRACKETS_STRING OR BRACKETS_CHAR) 0))
      else None)"
proof (cases "indexOf line ''//'' = -1")
  case True
  then show ?thesis by (simp add: stripRightComment_def)
next
  case False
  then have "length ''//'' \<le> length line"
    unfolding indexOf_def by (intro indexOfFrom_found_length[where i = 0]) simp_all
  then have len: "(0::int) < int (length line) - 1" by simp
  show ?thesis
    using False len stripRightCommentLoop_diverges[of 0 line] stripRightCommentLoop_found[of 0 line]
    by (simp add: stripRightComment_def)
qed

lemmas scan_defs = findNext_def bracketsToIncludes_def bump_def toggle_def
  BRACKETS_STRING_def BRACKETS_CHAR_def BRACKETS_ANGLE_def BRACKETS_ROUND_def BRACKETS_BOX_def
  BRACKETS_CURLY_def startsWith_def charAt_def commentMarkerAt_def indexOf_def

lemma stripRightComment_trailing_comment:
  "stripRightComment ''x = 1; // c'' = Some ''x = 1; ''"
  by (simp add: stripRightComment_eq scan_defs substring0_def)

text \<open>
  C4 (the code departs from the claim): on the line \<open>s = "//";\<close>, whose only comment
  marker lies inside a string literal, \<open>stripRightComment\<close> does not return the line: it
  does not return at all. On the line \<open>a / b // c\<close>, which has code and a trailing
  comment, it does not cut the line at the marker: the first \<open>/\<close> outside a literal is the
  division sign, and the loop repeats the same search for ever.
\<close>

theorem stripRightComment_does_not_return:
  "stripRightComment ''s = \"//\";'' = None \<and> stripRightComment ''a / b // c'' = None"
  by (simp add: stripRightComment_eq scan_defs)

subsection \<open>Normaliser\<close>

lemma preParseText_never_returns: "preParseText str \<noteq> Some (Inr content)"
  by (simp add: preParseText_def replaceAllRegExp_def split: option.splits)

lemma preParseText_throws:
  "stripRightComments (filter (\<lambda>line. \<not> isCommentLine line) (split CHR 0x0A str)) = Some ls \<Longrightarrow>
   preParseText str = Some (Inl TypeError)"
  by (simp add: preParseText_def replaceAllRegExp_def)

text \<open>
  C3 (the code departs from the claim): \<open>preParseText\<close> is not total. On the input
  \<open>int x; /* c */\<close> it throws a \<open>TypeError\<close>, raised by \<open>replaceAll\<close> for the pattern
  without the \<open>g\<close> flag, and the block comment is not removed; on the input
  \<open>x = a / b; // half\<close> it does not return.
\<close>

theorem preParseText_not_total:
  "preParseText ''int x; /* c */'' = Some (Inl TypeError) \<and>
   preParseText ''x = a / b; // half'' = None"
  by (simp add: preParseText_def replaceAllRegExp_def isCommentLine_def trim_def isSpace_def
      stripRightComment_eq scan_defs)

subsection \<open>Resolver\<close>

lemma split_append_sep:
  "sep \<notin> set cn \<Longrightarrow> split sep (ns @ sep # cn) = split sep ns @ [cn]"
proof (induction ns)
  case Nil
  then show ?case by (simp add: split_absent)
next
  case (Cons c ns)
  then show ?case
    using split_not_Nil[of sep ns] by (cases "split sep ns") auto
qed

lemma join_split: "join [sep] (split sep s) = s"
proof (induction s)
  case Nil
  then show ?case by simp
next
  case (Cons c s)
  obtain part parts where ps: "split sep s = part # parts"
    using split_not_Nil[of sep s] by (cases "split sep s") auto
  with Cons show ?case by (cases parts) auto
qed

text \<open>
  C9: a base name with a dot is looked up in the registry as it is. Written as
  \<open>ns.cn\<close> with \<open>cn\<close> free of dots (its last segment), it resolves on a miss to the
  class name \<open>cn\<close>, the namespace \<open>ns\<close> and the project \<open>external\<close>, and on a hit to
  the class name \<open>cn\<close> with the namespace and the project of the registry entry.
\<close>

theorem resolveClassDependency_qualified:
  assumes "baseType = ns @ ''.'' @ cn" and "CHR ''.'' \<notin> set cn"
  shows "resolveClassDependency baseType currentNamespace imports classRegistry =
     Some (case classRegistry baseType of
             None \<Rightarrow> \<lparr>namespace = ns, projectName = ''external'', className = cn\<rparr>
           | Some info \<Rightarrow>
               \<lparr>namespace = namespace info, projectName = projectName info, className = cn\<rparr>)"
proof -
  from assms have parts: "split CHR ''.'' baseType = split CHR ''.'' ns @ [cn]"
    by (simp add: split_append_sep)
  have "join ''.'' (split CHR ''.'' ns) = ns" by (rule join_split)
  with parts assms(1) show ?thesis
    by (simp add: resolveClassDependency_def resolveFullyQualifiedName_def split: option.splits)
qed

theorem resolveClassDependency_qualified_witness:
  "resolveClassDependency ''external.ui.Widget'' ''App'' [''Lib''] Map.empty =
     Some \<lparr>namespace = ''external.ui'', projectName = ''external'', className = ''Widget''\<rparr> \<and>
   resolveClassDependency ''Lib.Widget'' ''App'' []
       [''Lib.Widget'' \<mapsto> \<lparr>namespace = ''Lib'', projectName = ''P''\<rparr>] =
     Some \<lparr>namespace = ''Lib'', projectName = ''P'', className = ''Widget''\<rparr>"
  using resolveClassDependency_qualified [of "''external.ui.Widget''" "''external.ui''" "''Widget''" "''App''" "[''Lib'']" Map.empty]
    resolveClassDependency_qualified [of "''Lib.Widget''" "''Lib''" "''Widget''" "''App''" "[]"
       "[''Lib.Widget'' \<mapsto> \<lparr>namespace = ''Lib'', projectName = ''P''\<rparr>]"]
  by simp

subsection \<open>Candidates of the resolution\<close>

lemma resolveDependencies_Nil:
  "resolveDependencies [] imports currentNamespace currentClassName classRegistry file classItem = []"
  by (simp add: resolveDependencies_def)

lemma resolveClasses_append:
  "\<exists>new. resolveClasses path file classRegistry cs totalSoFar = totalSoFar @ new \<and>
         length new = length cs"
proof (induction cs arbitrary: totalSoFar)
  case Nil
  then show ?case by simp
next
  case (Cons c cs)
  obtain new where "resolveClasses path file classRegistry cs
      (totalSoFar @ [recordOf path file classRegistry c totalSoFar]) =
      (totalSoFar @ [recordOf path file classRegistry c totalSoFar]) @ new"
    and "length new = length cs"
    using Cons.IH by blast
  then show ?case
    by (intro exI[of _ "recordOf path file classRegistry c totalSoFar # new"])
       (simp add: recordOf_def)
qed

lemma resolveClasses_nth:
  "j < length cs \<Longrightarrow>
   resolveClasses path file classRegistry cs totalSoFar ! (length totalSoFar + j) =
     recordOf path file classRegistry (cs ! j)
       (take (length totalSoFar + j) (resolveClasses path file classRegistry cs totalSoFar))"
proof (induction cs arbitrary: totalSoFar j)
  case Nil
  then show ?case by simp
next
  case (Cons c cs)
  let ?r = "recordOf path file classRegistry c totalSoFar"
  let ?res = "resolveClasses path file classRegistry cs (totalSoFar @ [?r])"
  have unfold: "resolveClasses path file classRegistry (c # cs) totalSoFar = ?res"
    by (simp add: recordOf_def)
  obtain new where new: "?res = (totalSoFar @ [?r]) @ new"
    using resolveClasses_append by blast
  show ?case
  proof (cases j)
    case 0
    from new have "?res ! length totalSoFar = ?r" by (simp add: nth_append)
    moreover from new have "take (length totalSoFar) ?res = totalSoFar" by simp
    ultimately show ?thesis unfolding unfold using 0 by simp
  next
    case (Suc k)
    with Cons.prems have "k < length cs" by simp
    from Cons.IH[OF this, of "totalSoFar @ [?r]"] show ?thesis
      unfolding unfold using Suc by simp
  qed
qed


lemma resolveLoop_file_cong:
  "fileNamespace file' = fileNamespace file \<Longrightarrow> fileImports file' = fileImports file \<Longrightarrow>
   resolveLoop deps cn classRegistry file' resolved acc =
   resolveLoop deps cn classRegistry file resolved acc"
  by (induction deps cn classRegistry "file" resolved acc rule: resolveLoop.induct)
     (auto simp: Let_def split: option.splits)

lemma resolveClasses_bodies:
  assumes "fileNamespace file' = fileNamespace file" and "fileImports file' = fileImports file"
    and "fileProjectName file' = fileProjectName file"
    and "map clsName cs' = map clsName cs"
  shows "resolveClasses path file' classRegistry cs' totalSoFar =
         resolveClasses path file classRegistry cs totalSoFar"
  using assms(4)
proof (induction cs arbitrary: cs' totalSoFar)
  case Nil
  then show ?case by simp
next
  case (Cons c cs)
  then obtain c' rest where cs': "cs' = c' # rest" and c: "clsName c' = clsName c"
    and rest: "map clsName rest = map clsName cs"
    by (cases cs') auto
  show ?case
    unfolding cs' using Cons.IH[OF rest] c assms(1-3)
    by (simp add: resolveDependencies_def resolveLoop_file_cong[OF assms(1,2)])
qed

lemma resolveClassDependencies_appFile:
  "map dependencies (resolveClassDependencies ''App.cs'' appFile appRegistry) =
   [[], [\<lparr>namespace = ''App'', projectName = ''P'', className = ''Foo''\<rparr>]]"
  by (simp add: resolveClassDependencies_def appFile_def appRegistry_def resolveDependencies_def
      isPrimitiveType_def primitiveTypes_def trim_def isSpace_def startsWith_def
      resolveClassDependency_def resolveWithNamespace_def)

text \<open>
  C2: \<open>resolveClassDependencies\<close> gives one record per class of the file, in order. The
  dependencies of the record at position \<open>i\<close> are the result of \<open>resolveDependencies\<close>
  on the records at the positions before \<open>i\<close>, so the first record of every file has no
  dependencies; and the result does not depend on the type references extracted for the
  classes: two files with the same namespace, imports, project and class names give the
  same records.
\<close>

theorem resolveClassDependencies_candidates:
  "length (resolveClassDependencies path file classRegistry) = length (classes file) \<and>
   (\<forall>i < length (classes file).
      className (resolveClassDependencies path file classRegistry ! i) =
        clsName (classes file ! i) \<and>
      dependencies (resolveClassDependencies path file classRegistry ! i) =
        resolveDependencies (take i (resolveClassDependencies path file classRegistry))
          (fileImports file) (fileNamespace file) (clsName (classes file ! i)) classRegistry
          file (classes file ! i)) \<and>
   (classes file \<noteq> [] \<longrightarrow>
      dependencies (hd (resolveClassDependencies path file classRegistry)) = []) \<and>
   (fileNamespace file' = fileNamespace file \<and> fileImports file' = fileImports file \<and>
    fileProjectName file' = fileProjectName file \<and>
    map clsName (classes file') = map clsName (classes file) \<longrightarrow>
      resolveClassDependencies path file' classRegistry =
      resolveClassDependencies path file classRegistry)"
proof (intro conjI allI impI)
  show len: "length (resolveClassDependencies path file classRegistry) = length (classes file)"
    using resolveClasses_append[of path "file" classRegistry "classes file" "[]"]
    by (auto simp: resolveClassDependencies_def)
  {
    fix i assume i: "i < length (classes file)"
    from resolveClasses_nth[OF i, of path "file" classRegistry "[]"]
    have nth: "resolveClassDependencies path file classRegistry ! i =
        recordOf path file classRegistry (classes file ! i)
          (take i (resolveClassDependencies path file classRegistry))"
      by (simp add: resolveClassDependencies_def)
    show "className (resolveClassDependencies path file classRegistry ! i) =
        clsName (classes file ! i)"
      by (subst nth) (simp add: recordOf_def)
    show "dependencies (resolveClassDependencies path file classRegistry ! i) =
        resolveDependencies (take i (resolveClassDependencies path file classRegistry))
          (fileImports file) (fileNamespace file) (clsName (classes file ! i)) classRegistry
          file (classes file ! i)"
      by (subst nth) (simp add: recordOf_def)
  }
  {
    assume ne: "classes file \<noteq> []"
    then have pos: "0 < length (classes file)" by simp
    from resolveClasses_nth[OF pos, of path "file" classRegistry "[]"]
    have "resolveClassDependencies path file classRegistry ! 0 =
        recordOf path file classRegistry (classes file ! 0) []"
      by (simp add: resolveClassDependencies_def)
    moreover from len ne have "resolveClassDependencies path file classRegistry \<noteq> []" by auto
    ultimately show "dependencies (hd (resolveClassDependencies path file classRegistry)) = []"
      by (simp add: hd_conv_nth recordOf_def resolveDependencies_def)
  }
  {
    assume "fileNamespace file' = fileNamespace file \<and> fileImports file' = fileImports file \<and>
      fileProjectName file' = fileProjectName file \<and>
      map clsName (classes file') = map clsName (classes file)"
    then show "resolveClassDependencies path file' classRegistry =
      resolveClassDependencies path file classRegistry"
      unfolding resolveClassDependencies_def by (intro resolveClasses_bodies) simp_all
  }
qed

theorem resolveClassDependencies_candidates_witness:
  "classes appFile \<noteq> [] \<and>
   dependencies (hd (resolveClassDependencies ''App.cs'' appFile appRegistry)) = [] \<and>
   1 < length (classes appFile) \<and>
   className (resolveClassDependencies ''App.cs'' appFile appRegistry ! 1) = ''Bar'' \<and>
   dependencies (resolveClassDependencies ''App.cs'' appFile appRegistry ! 1) =
     resolveDependencies (take 1 (resolveClassDependencies ''App.cs'' appFile appRegistry))
       [] ''App'' ''Bar'' appRegistry appFile (classes appFile ! 1) \<and>
   dependencies (resolveClassDependencies ''App.cs'' appFile appRegistry ! 1) =
     [\<lparr>namespace = ''App'', projectName = ''P'', className = ''Foo''\<rparr>]"
proof -
  have cls: "classes appFile \<noteq> []" "1 < length (classes appFile)"
    "clsName (classes appFile ! 1) = ''Bar''" "fileImports appFile = []"
    "fileNamespace appFile = ''App''"
    by (simp_all add: appFile_def)
  have "length (resolveClassDependencies ''App.cs'' appFile appRegistry) = 2"
    using resolveClassDependencies_appFile by (metis length_map list.size(3,4) One_nat_def
        Suc_1 add.right_neutral add_Suc_right)
  then have deps1: "dependencies (resolveClassDependencies ''App.cs'' appFile appRegistry ! 1) =
      map dependencies (resolveClassDependencies ''App.cs'' appFile appRegistry) ! 1"
    by simp
  show ?thesis
    using resolveClassDependencies_candidates
      [of "''App.cs''" appFile appRegistry appFile] cls deps1
    by (simp add: resolveClassDependencies_appFile)
qed

subsection \<open>Registry\<close>

lemma applyRegistrations_append:
  "applyRegistrations (xs @ ys) r = applyRegistrations ys (applyRegistrations xs r)"
  by (simp add: applyRegistrations_def)

lemma registerClasses_log:
  "registerClasses cns ns pn r =
   applyRegistrations (concat (map (\<lambda>cn.
         (cn, \<lparr>namespace = ns, projectName = pn\<rparr>) #
         (if ns \<noteq> [] then [(ns @ ''.'' @ cn, \<lparr>namespace = ns, projectName = pn\<rparr>)] else []))
       cns)) r"
  by (induction cns arbitrary: r) (auto simp: applyRegistrations_def Let_def)

lemma registerClassesFromFile_log:
  "registerClassesFromFile content pn r = applyRegistrations (fileRegistrations content pn) r"
  by (simp add: registerClassesFromFile_def fileRegistrations_def registerClasses_log)

lemma registerFiles_log:
  "registerFiles readFile pn sourceFiles r =
   applyRegistrations (projectRegistrations readFile pn sourceFiles) r"
proof (induction sourceFiles arbitrary: r)
  case Nil
  then show ?case by (simp add: projectRegistrations_def applyRegistrations_def)
next
  case (Cons path sourceFiles)
  have step: "projectRegistrations readFile pn (path # sourceFiles) =
      (case readFile path of None \<Rightarrow> [] | Some content \<Rightarrow> fileRegistrations content pn) @
      projectRegistrations readFile pn sourceFiles"
    by (simp add: projectRegistrations_def)
  show ?case
    unfolding step applyRegistrations_append
    by (cases "readFile path")
       (simp_all add: Cons.IH registerClassesFromFile_log applyRegistrations_def)
qed

lemma firstPass_log:
  "firstPass readFile projects r = applyRegistrations (registrations readFile projects) r"
proof (induction projects arbitrary: r)
  case Nil
  then show ?case by (simp add: registrations_def applyRegistrations_def)
next
  case (Cons project projects)
  obtain pn sourceFiles where project: "project = (pn, sourceFiles)" by (cases project)
  have step: "registrations readFile (project # projects) =
      projectRegistrations readFile pn sourceFiles @ registrations readFile projects"
    by (simp add: registrations_def project)
  show ?case
    unfolding step applyRegistrations_append
    by (simp add: project Cons.IH registerFiles_log)
qed

lemma lastRegistered_snoc:
  "lastRegistered key (log @ [(k, info)]) = (if k = key then Some info else lastRegistered key log)"
  by (simp add: lastRegistered_def Let_def)

lemma applyRegistrations_lookup:
  "applyRegistrations log r key =
     (case lastRegistered key log of None \<Rightarrow> r key | Some info \<Rightarrow> Some info)"
proof (induction log rule: rev_induct)
  case Nil
  then show ?case by (simp add: applyRegistrations_def lastRegistered_def)
next
  case (snoc entry log)
  obtain k info where entry: "entry = (k, info)" by (cases entry)
  show ?case
    unfolding entry lastRegistered_snoc applyRegistrations_append
    using snoc.IH by (simp add: applyRegistrations_def)
qed

lemma lastRegistered_append:
  "lastRegistered key (xs @ ys) =
     (case lastRegistered key ys of None \<Rightarrow> lastRegistered key xs | Some info \<Rightarrow> Some info)"
proof (induction ys rule: rev_induct)
  case Nil
  then show ?case by (simp add: lastRegistered_def)
next
  case (snoc entry ys)
  obtain k info where entry: "entry = (k, info)" by (cases entry)
  show ?case
    using snoc.IH lastRegistered_snoc[of key "xs @ ys" k info] lastRegistered_snoc[of key ys k info]
    unfolding entry by simp
qed

lemma lastRegistered_same_info:
  assumes "\<forall>e \<in> set log. snd e = info" and "key \<in> fst ` set log"
  shows "lastRegistered key log = Some info"
proof -
  let ?hits = "filter (\<lambda>(k, info). k = key) log"
  from assms(2) have ne: "?hits \<noteq> []"
    by (auto simp: filter_empty_conv)
  then have "last ?hits \<in> set ?hits" by (rule last_in_set)
  with assms(1) have "snd (last ?hits) = info" by auto
  with ne show ?thesis by (simp add: lastRegistered_def Let_def)
qed

lemma fileRegistrations_info:
  "e \<in> set (fileRegistrations content pn) \<Longrightarrow>
   snd e = \<lparr>namespace = namespaceOf content, projectName = pn\<rparr>"
  by (auto simp: fileRegistrations_def split: if_splits)

lemma fileRegistrations_bare:
  "cn \<in> set (classNames False 0 content) \<Longrightarrow> cn \<in> fst ` set (fileRegistrations content pn)"
  by (force simp: fileRegistrations_def)

lemma classNames_Cons:
  "classNames prevWord skip (c # cs) =
     (if skip = 0 then
        (case (if prevWord then None else matchClass (c # cs)) of
           Some (name, n) \<Rightarrow> name # classNames (isWord c) (n - 1) cs
         | None \<Rightarrow> classNames (isWord c) 0 cs)
      else classNames (isWord c) (skip - 1) cs)"
  by (cases skip) simp_all

lemmas regex_defs = matchClass_def matchNamespace_def namespaceOf_def startsWith_def
  isSpace_def isWord_def isNamespaceChar_def MAX_CLASS_NAME_LENGTH_def

text \<open>
  C8: after the first pass the registry maps every key to the value of the last
  registration made for it, and to nothing when there was none. In particular, for two
  projects with one readable file each, a class name declared in the file of the second
  project is mapped to the namespace of that file and to the second project, whatever the
  first project registered.
\<close>

theorem registry_last_registration_wins:
  "firstPass readFile projects Map.empty key = lastRegistered key (registrations readFile projects) \<and>
   (readFile path1 = Some content1 \<and> readFile path2 = Some content2 \<and>
    cn \<in> set (classNames False 0 content2) \<longrightarrow>
      firstPass readFile [(project1, [path1]), (project2, [path2])] Map.empty cn =
        Some \<lparr>namespace = namespaceOf content2, projectName = project2\<rparr>)"
proof (intro conjI impI)
  show general: "\<And>projects. firstPass readFile projects Map.empty key =
      lastRegistered key (registrations readFile projects)"
    by (simp add: firstPass_log applyRegistrations_lookup split: option.splits)
  assume a: "readFile path1 = Some content1 \<and> readFile path2 = Some content2 \<and>
    cn \<in> set (classNames False 0 content2)"
  then have log: "registrations readFile [(project1, [path1]), (project2, [path2])] =
      fileRegistrations content1 project1 @ fileRegistrations content2 project2"
    by (simp add: registrations_def projectRegistrations_def)
  have "lastRegistered cn (fileRegistrations content2 project2) =
      Some \<lparr>namespace = namespaceOf content2, projectName = project2\<rparr>"
    using a by (intro lastRegistered_same_info) (auto simp: fileRegistrations_info fileRegistrations_bare)
  then show "firstPass readFile [(project1, [path1]), (project2, [path2])] Map.empty cn =
        Some \<lparr>namespace = namespaceOf content2, projectName = project2\<rparr>"
    by (simp add: firstPass_log applyRegistrations_lookup log lastRegistered_append)
qed

theorem registry_last_registration_wins_witness:
  "twoFoo ''a/Foo.cs'' = Some ''class Foo { }'' \<and>
   twoFoo ''b/Foo.cs'' = Some ''public class Foo { int x; }'' \<and>
   ''Foo'' \<in> set (classNames False 0 ''public class Foo { int x; }'') \<and>
   firstPass twoFoo [(''A'', [''a/Foo.cs'']), (''B'', [''b/Foo.cs''])] Map.empty ''Foo'' =
     Some \<lparr>namespace = [], projectName = ''B''\<rparr>"
proof -
  have r1: "twoFoo ''a/Foo.cs'' = Some ''class Foo { }''"
    and r2: "twoFoo ''b/Foo.cs'' = Some ''public class Foo { int x; }''"
    by (simp_all add: twoFoo_def)
  have names: "''Foo'' \<in> set (classNames False 0 ''public class Foo { int x; }'')"
    by (simp add: classNames_Cons regex_defs del: classNames.simps(2,3))
  have ns: "namespaceOf ''public class Foo { int x; }'' = []"
    by (simp add: regex_defs)
  from r1 r2 names
    registry_last_registration_wins
      [of twoFoo "[]" "[]" "''a/Foo.cs''" "''class Foo { }''" "''b/Foo.cs''"
          "''public class Foo { int x; }''" "''Foo''" "''A''" "''B''"]
  have "firstPass twoFoo [(''A'', [''a/Foo.cs'']), (''B'', [''b/Foo.cs''])] Map.empty ''Foo'' =
     Some \<lparr>namespace = namespaceOf ''public class Foo { int x; }'', projectName = ''B''\<rparr>"
    by (elim conjE impE) (intro conjI, assumption+)
  then have res:
    "firstPass twoFoo [(''A'', [''a/Foo.cs'']), (''B'', [''b/Foo.cs''])] Map.empty ''Foo'' =
     Some \<lparr>namespace = [], projectName = ''B''\<rparr>"
    unfolding ns .
  show ?thesis
    by (intro conjI) (rule r1 r2 names res)+
qed

subsection \<open>File-read failures\<close>

lemma registerFiles_skip:
  "readFile path = None \<Longrightarrow>
   registerFiles readFile pn sourceFiles r =
   registerFiles readFile pn (filter (\<lambda>p. p \<noteq> path) sourceFiles) r"
  by (induction sourceFiles arbitrary: r) auto

lemma firstPass_skip:
  "readFile path = None \<Longrightarrow>
   firstPass readFile projects r = firstPass readFile (removeFile path projects) r"
proof (induction projects arbitrary: r)
  case Nil
  then show ?case by (simp add: removeFile_def)
next
  case (Cons project projects)
  obtain pn sourceFiles where project: "project = (pn, sourceFiles)" by (cases project)
  have tail: "removeFile path ((pn, sourceFiles) # projects) =
      (pn, filter (\<lambda>p. p \<noteq> path) sourceFiles) # removeFile path projects"
    by (simp add: removeFile_def)
  show ?case
    using Cons.IH[OF Cons.prems] registerFiles_skip[of readFile path, OF Cons.prems]
    by (simp add: tail project)
qed

lemma analyzeFiles_skip:
  "readFile path = None \<Longrightarrow>
   analyzeFiles ex readFile r pn sourceFiles acc =
   analyzeFiles ex readFile r pn (filter (\<lambda>p. p \<noteq> path) sourceFiles) acc"
  by (induction sourceFiles arbitrary: acc) (auto split: option.splits sum.splits)

lemma secondPass_skip:
  "readFile path = None \<Longrightarrow>
   secondPass ex readFile r projects acc = secondPass ex readFile r (removeFile path projects) acc"
proof (induction projects arbitrary: acc)
  case Nil
  then show ?case by (simp add: removeFile_def)
next
  case (Cons project projects)
  obtain pn sourceFiles where project: "project = (pn, sourceFiles)" by (cases project)
  have tail: "removeFile path ((pn, sourceFiles) # projects) =
      (pn, filter (\<lambda>p. p \<noteq> path) sourceFiles) # removeFile path projects"
    by (simp add: removeFile_def)
  show ?case
    using Cons.IH[OF Cons.prems] analyzeFiles_skip[of readFile path ex r pn sourceFiles acc, OF Cons.prems]
    by (simp add: tail project split: option.splits)
qed

lemma analyzeFiles_all_fail:
  "\<forall>p \<in> set sourceFiles. readFile p = None \<Longrightarrow>
   analyzeFiles ex readFile r pn sourceFiles acc = Some acc"
  by (induction sourceFiles) auto

lemma secondPass_all_fail:
  "\<forall>(pn, sourceFiles) \<in> set projects. \<forall>p \<in> set sourceFiles. readFile p = None \<Longrightarrow>
   secondPass ex readFile r projects acc = Some acc"
  by (induction projects) (auto simp: analyzeFiles_all_fail)

text \<open>
  C10: a file whose read fails changes nothing: the first pass builds the same registry
  as for the project map without that path, the second pass and the whole run give the same
  result as without it (the same records, or no return in both cases), and a run in which
  every read of the second pass fails returns the empty list.
\<close>

theorem read_failure_skips_file:
  "(readFile1 path = None \<longrightarrow>
      firstPass readFile1 projects classRegistry =
      firstPass readFile1 (removeFile path projects) classRegistry) \<and>
   (readFile2 path = None \<longrightarrow>
      secondPass ex readFile2 classRegistry projects classDependencies =
      secondPass ex readFile2 classRegistry (removeFile path projects) classDependencies) \<and>
   (readFile1 path = None \<and> readFile2 path = None \<longrightarrow>
      parseClassDependencies ex readFile1 readFile2 projects includeClassDependencies =
      parseClassDependencies ex readFile1 readFile2 (removeFile path projects)
        includeClassDependencies) \<and>
   ((\<forall>p. readFile2 p = None) \<longrightarrow>
      parseClassDependencies ex readFile1 readFile2 projects includeClassDependencies = Some [])"
  by (auto simp: firstPass_skip[symmetric] secondPass_skip[symmetric] parseClassDependencies_def
      Let_def secondPass_all_fail)

theorem read_failure_skips_file_witness:
  "appReader ''Gone.cs'' = None \<and>
   firstPass appReader [(''P'', [''Gone.cs'', ''App.cs''])] Map.empty =
     firstPass appReader [(''P'', [''App.cs''])] Map.empty \<and>
   secondPass noExtractor appReader Map.empty [(''P'', [''Gone.cs'', ''App.cs''])] [] =
     secondPass noExtractor appReader Map.empty [(''P'', [''App.cs''])] [] \<and>
   parseClassDependencies noExtractor appReader appReader [(''P'', [''Gone.cs'', ''App.cs''])] True =
     parseClassDependencies noExtractor appReader appReader [(''P'', [''App.cs''])] True \<and>
   parseClassDependencies noExtractor appReader (\<lambda>p. None) [(''P'', [''Gone.cs'', ''App.cs''])] True =
     Some []"
proof -
  have gone: "appReader ''Gone.cs'' = None" by (simp add: appReader_def)
  have rm: "removeFile ''Gone.cs'' [(''P'', [''Gone.cs'', ''App.cs''])] = [(''P'', [''App.cs''])]"
    by (simp add: removeFile_def)
  have none: "\<forall>p. (\<lambda>p. None :: string option) p = None" by simp
  note a = read_failure_skips_file
      [of appReader "''Gone.cs''" "[(''P'', [''Gone.cs'', ''App.cs''])]" Map.empty appReader
          noExtractor "[]" True, unfolded rm]
  note b = read_failure_skips_file
      [of appReader "''Gone.cs''" "[(''P'', [''Gone.cs'', ''App.cs''])]" Map.empty "\<lambda>p. None"
          noExtractor "[]" True]
  from a gone have 1: "firstPass appReader [(''P'', [''Gone.cs'', ''App.cs''])] Map.empty =
     firstPass appReader [(''P'', [''App.cs''])] Map.empty" by blast
  from a gone have 2: "secondPass noExtractor appReader Map.empty [(''P'', [''Gone.cs'', ''App.cs''])] [] =
     secondPass noExtractor appReader Map.empty [(''P'', [''App.cs''])] []" by blast
  from a gone have 3: "parseClassDependencies noExtractor appReader appReader [(''P'', [''Gone.cs'', ''App.cs''])] True =
     parseClassDependencies noExtractor appReader appReader [(''P'', [''App.cs''])] True" by blast
  from b none have 4: "parseClassDependencies noExtractor appReader (\<lambda>p. None) [(''P'', [''Gone.cs'', ''App.cs''])] True =
     Some []" by blast
  show ?thesis by (intro conjI) (rule gone 1 2 3 4)+
qed

subsection \<open>End to end\<close>

text \<open>
  No file ever contributes a record: \<open>extractClassesFromFile\<close> never returns a file,
  because \<open>preParseText\<close> never returns a text.
\<close>

lemma extractClassesFromFile_no_file: "extractClassesFromFile ex content \<noteq> Some (Inr rawFile)"
  using preParseText_never_returns[of content]
  by (auto simp: extractClassesFromFile_def split: option.splits sum.splits)

lemma analyzeFiles_no_records:
  "analyzeFiles ex readFile r pn sourceFiles acc = Some result \<Longrightarrow> result = acc"
  using extractClassesFromFile_no_file
  by (induction sourceFiles) (auto split: option.splits sum.splits)

lemma secondPass_no_records:
  "secondPass ex readFile r projects acc = Some result \<Longrightarrow> result = acc"
proof (induction projects arbitrary: acc)
  case Nil
  then show ?case by simp
next
  case (Cons project projects)
  obtain pn sourceFiles where project: "project = (pn, sourceFiles)" by (cases project)
  from Cons.prems obtain acc' where
    a: "analyzeFiles ex readFile r pn sourceFiles acc = Some acc'"
    and s: "secondPass ex readFile r projects acc' = Some result"
    by (auto simp: project split: option.splits)
  from analyzeFiles_no_records[OF a] Cons.IH[OF s] show ?case by simp
qed

lemma parseClassDependencies_no_records:
  "parseClassDependencies ex readFile1 readFile2 projects includeClassDependencies = Some result \<Longrightarrow>
   result = []"
  by (auto simp: parseClassDependencies_def Let_def dest: secondPass_no_records split: if_splits)

lemma stripRightComment_no_marker: "indexOf line ''//'' = -1 \<Longrightarrow> stripRightComment line = Some line"
  by (simp add: stripRightComment_def)

lemma preParseText_appSource: "preParseText appSource = Some (Inl TypeError)"
proof -
  have "split CHR 0x0A appSource = [appSource]"
    by (rule split_absent) (simp add: appSource_def)
  moreover have "\<not> isCommentLine appSource"
    by (simp add: isCommentLine_def appSource_def trim_def isSpace_def startsWith_def)
  moreover have "indexOf appSource ''//'' = -1"
    by (simp add: appSource_def indexOf_def startsWith_def)
  ultimately have "stripRightComments (filter (\<lambda>line. \<not> isCommentLine line)
      (split CHR 0x0A appSource)) = Some [appSource]"
    by (simp add: stripRightComment_no_marker)
  then show ?thesis by (rule preParseText_throws)
qed

lemma firstPass_appSource: "firstPass appReader [(''P'', [''App.cs''])] Map.empty = appRegistry"
proof -
  have names: "classNames False 0 appSource = [''Foo'', ''Bar'']"
    unfolding appSource_def
    by (simp add: classNames_Cons regex_defs del: classNames.simps(2,3))
  have ns: "namespaceOf appSource = ''App''"
    unfolding appSource_def by (simp add: regex_defs)
  show ?thesis
    by (simp add: appReader_def registerClassesFromFile_def names ns appRegistry_def)
qed

text \<open>
  C1 (the code departs from the claim): for the project \<open>P\<close> with the one file
  \<open>App.cs\<close> that declares \<open>Foo\<close> and \<open>Bar\<close> in the namespace \<open>App\<close>,
  \<open>parseClassDependencies\<close> returns the empty list, so there is no record for \<open>Foo\<close>;
  the exception of \<open>preParseText\<close> is caught in the second pass. The first pass has
  registered both classes. On the file as a working extractor would give it, the resolver
  gives \<open>Foo\<close> no dependency at all and gives \<open>Bar\<close> the dependency \<open>Foo\<close>.
\<close>

theorem end_to_end_example:
  "parseClassDependencies ex appReader appReader [(''P'', [''App.cs''])] True = Some [] \<and>
   firstPass appReader [(''P'', [''App.cs''])] Map.empty = appRegistry \<and>
   map dependencies (resolveClassDependencies ''App.cs'' appFile appRegistry) =
     [[], [\<lparr>namespace = ''App'', projectName = ''P'', className = ''Foo''\<rparr>]]"
proof (intro conjI)
  have "analyzeFiles ex appReader r ''P'' [''App.cs''] [] = Some []" for r
    by (simp add: appReader_def extractClassesFromFile_def preParseText_appSource)
  then show "parseClassDependencies ex appReader appReader [(''P'', [''App.cs''])] True = Some []"
    by (simp add: parseClassDependencies_def Let_def del: analyzeFiles.simps firstPass.simps)
  show "firstPass appReader [(''P'', [''App.cs''])] Map.empty = appRegistry"
    by (rule firstPass_appSource)
  show "map dependencies (resolveClassDependencies ''App.cs'' appFile appRegistry) =
     [[], [\<lparr>namespace = ''App'', projectName = ''P'', className = ''Foo''\<rparr>]]"
    by (rule resolveClassDependencies_appFile)
qed

end
